theory Spec2Isabelle
  imports Complex_Main
begin

section \<open>The snake game of \<^verbatim>\<open>snake.py\<close>\<close>

text \<open>
  The model covers the game logic of \<^verbatim>\<open>init_game\<close> and of the loop body of
  \<^verbatim>\<open>run_game\<close>: event handling, the move of the snake, collision detection, food and
  score. Drawing and frame pacing (\<^verbatim>\<open>screen.fill\<close>, \<^verbatim>\<open>pygame.draw.rect\<close>,
  \<^verbatim>\<open>clock.tick\<close>) read the game variables and never write them, so they are left out.
  Python integers are unbounded: they are \<^typ>\<open>int\<close>.
\<close>

subsection \<open>Constants\<close>

definition WIDTH :: int where
  "WIDTH = 600"

definition HEIGHT :: int where
  "HEIGHT = 400"

definition GRID_SIZE :: int where
  "GRID_SIZE = 20"

subsection \<open>Data\<close>

type_synonym cell = "int \<times> int"

text \<open>The only exception the game logic can raise: \<^verbatim>\<open>snake[0]\<close> on an empty list.\<close>

datatype py_error = IndexError

text \<open>The keys and the event types that the event loop tells apart.\<close>

datatype key = K_UP | K_DOWN | K_LEFT | K_RIGHT | K_OTHER

datatype event = QUIT | KEYDOWN key | OTHER_EVENT

text \<open>The local variables of \<^verbatim>\<open>run_game\<close> that live across iterations of the loop.\<close>

record game =
  snake :: "cell list"
  snake_dir :: cell
  food :: cell
  score :: int
  start_time :: real
  running :: bool

text \<open>
  What the outside world supplies to one iteration of the loop: the events returned by
  \<^verbatim>\<open>pygame.event.get()\<close> and the two numbers that the calls of \<^verbatim>\<open>random.randint\<close>
  return if the iteration reaches them.
\<close>

record tick_input =
  events :: "event list"
  rand_x :: int
  rand_y :: int

subsection \<open>The random-number source\<close>

text \<open>\<^verbatim>\<open>random.randint(a, b)\<close> returns an integer \<open>r\<close> with \<open>a \<le> r \<le> b\<close>.\<close>

definition randint_returns :: "int \<Rightarrow> int \<Rightarrow> int \<Rightarrow> bool" where
  "randint_returns a b r \<longleftrightarrow> a \<le> r \<and> r \<le> b"

text \<open>The two draws of a food placement, lines 46-47 and 154-155.\<close>

definition food_draws :: "int \<Rightarrow> int \<Rightarrow> bool" where
  "food_draws rx ry \<longleftrightarrow>
     randint_returns 0 (WIDTH div GRID_SIZE - 1) rx \<and>
     randint_returns 0 (HEIGHT div GRID_SIZE - 1) ry"

definition random_food :: "int \<Rightarrow> int \<Rightarrow> cell" where
  "random_food rx ry = (rx * GRID_SIZE, ry * GRID_SIZE)"

subsection \<open>\<^verbatim>\<open>init_game\<close>\<close>

definition init_game :: "int \<Rightarrow> int \<Rightarrow> real \<Rightarrow> cell list \<times> cell \<times> cell \<times> int \<times> real" where
  "init_game rx ry now =
     ([(100, 100), (90, 100), (80, 100)], (GRID_SIZE, 0), random_food rx ry, 0, now)"

text \<open>The state on entry to the loop: line 118 and \<^verbatim>\<open>running = True\<close>.\<close>

definition start_state :: "int \<Rightarrow> int \<Rightarrow> real \<Rightarrow> game" where
  "start_state rx ry now =
     (case init_game rx ry now of
        (sn, d, f, sc, t) \<Rightarrow>
          \<lparr>snake = sn, snake_dir = d, food = f, score = sc, start_time = t, running = True\<rparr>)"

subsection \<open>Event handling, lines 126-137\<close>

fun handle_event :: "game \<Rightarrow> event \<Rightarrow> game" where
  "handle_event s QUIT = s\<lparr>running := False\<rparr>"
| "handle_event s (KEYDOWN k) =
     (if k = K_UP \<and> snake_dir s \<noteq> (0, GRID_SIZE) then s\<lparr>snake_dir := (0, - GRID_SIZE)\<rparr>
      else if k = K_DOWN \<and> snake_dir s \<noteq> (0, - GRID_SIZE) then s\<lparr>snake_dir := (0, GRID_SIZE)\<rparr>
      else if k = K_LEFT \<and> snake_dir s \<noteq> (GRID_SIZE, 0) then s\<lparr>snake_dir := (- GRID_SIZE, 0)\<rparr>
      else if k = K_RIGHT \<and> snake_dir s \<noteq> (- GRID_SIZE, 0) then s\<lparr>snake_dir := (GRID_SIZE, 0)\<rparr>
      else s)"
| "handle_event s OTHER_EVENT = s"

definition handle_events :: "event list \<Rightarrow> game \<Rightarrow> game" where
  "handle_events evs s = foldl handle_event s evs"

text \<open>The direction that an arrow key asks for: the value its branch assigns.\<close>

fun key_dir :: "key \<Rightarrow> cell option" where
  "key_dir K_UP = Some (0, - GRID_SIZE)"
| "key_dir K_DOWN = Some (0, GRID_SIZE)"
| "key_dir K_LEFT = Some (- GRID_SIZE, 0)"
| "key_dir K_RIGHT = Some (GRID_SIZE, 0)"
| "key_dir K_OTHER = None"

text \<open>The exact opposite of a direction, in the words of the specification.\<close>

definition opposite :: "cell \<Rightarrow> cell" where
  "opposite d = (- fst d, - snd d)"

subsection \<open>The move, lines 139-157\<close>

text \<open>Line 140. \<^verbatim>\<open>snake[0]\<close> raises on an empty list.\<close>

definition new_head :: "game \<Rightarrow> py_error + cell" where
  "new_head s =
     (case snake s of
        [] \<Rightarrow> Inl IndexError
      | h # _ \<Rightarrow> Inr (fst h + fst (snake_dir s), snd h + snd (snake_dir s)))"

text \<open>The condition of lines 143-145, on the snake before the head is inserted.\<close>

definition collides :: "cell \<Rightarrow> cell list \<Rightarrow> bool" where
  "collides nh sn \<longleftrightarrow>
     nh \<in> set sn \<or> fst nh < 0 \<or> fst nh \<ge> WIDTH \<or> snd nh < 0 \<or> snd nh \<ge> HEIGHT"

text \<open>
  Lines 142-157. \<^verbatim>\<open>snake.insert(0, new_head)\<close> runs whatever the collision check found;
  \<^verbatim>\<open>snake.pop()\<close> removes the last element of a list that holds at least the new head.
\<close>

definition move_snake :: "int \<Rightarrow> int \<Rightarrow> game \<Rightarrow> py_error + game" where
  "move_snake rx ry s =
     (case new_head s of
        Inl e \<Rightarrow> Inl e
      | Inr nh \<Rightarrow>
          (let s1 = (if collides nh (snake s) then s\<lparr>running := False\<rparr> else s);
               s2 = s1\<lparr>snake := nh # snake s1\<rparr>
           in if nh = food s2
              then Inr (s2\<lparr>score := score s2 + 1, food := random_food rx ry\<rparr>)
              else Inr (s2\<lparr>snake := butlast (snake s2)\<rparr>)))"

text \<open>One iteration of the loop body.\<close>

definition loop_body :: "tick_input \<Rightarrow> game \<Rightarrow> py_error + game" where
  "loop_body i s = move_snake (rand_x i) (rand_y i) (handle_events (events i) s)"

text \<open>
  The \<^verbatim>\<open>while running\<close> loop, driven by the inputs of its first iterations: it stops when
  \<^verbatim>\<open>running\<close> is false at the top of an iteration, and the result is the state of the
  game variables when the inputs are used up.
\<close>

fun run_loop :: "tick_input list \<Rightarrow> game \<Rightarrow> py_error + game" where
  "run_loop [] s = Inr s"
| "run_loop (i # ins) s =
     (if running s
      then (case loop_body i s of Inl e \<Rightarrow> Inl e | Inr s' \<Rightarrow> run_loop ins s')
      else Inr s)"

subsection \<open>Predicates of the claims\<close>

definition in_board :: "cell \<Rightarrow> bool" where
  "in_board c \<longleftrightarrow> 0 \<le> fst c \<and> fst c < WIDTH \<and> 0 \<le> snd c \<and> snd c < HEIGHT"

definition grid_aligned :: "cell \<Rightarrow> bool" where
  "grid_aligned c \<longleftrightarrow> fst c mod GRID_SIZE = 0 \<and> snd c mod GRID_SIZE = 0"

text \<open>The horizontal and vertical steps between consecutive cells of a body.\<close>

fun cell_gaps :: "cell list \<Rightarrow> cell list" where
  "cell_gaps (a # b # cs) = (fst a - fst b, snd a - snd b) # cell_gaps (b # cs)"
| "cell_gaps cs = []"

text \<open>
  The first iteration from the start, when an up and a left key press arrive together:
  each press passes its own reversal check, and together they turn the snake around.
\<close>

definition turned_start :: "int \<Rightarrow> int \<Rightarrow> game" where
  "turned_start rx ry = handle_events [KEYDOWN K_UP, KEYDOWN K_LEFT] (start_state rx ry 0)"

text \<open>An iteration without events; its draws are not used unless food is eaten.\<close>

definition idle :: tick_input where
  "idle = \<lparr>events = [], rand_x = 0, rand_y = 0\<rparr>"

text \<open>The state after 24 idle iterations from the start: the head is in the last column.\<close>

definition right_wall_state :: game where
  "right_wall_state =
     \<lparr>snake = [(580, 100), (560, 100), (540, 100)], snake_dir = (20, 0),
      food = (0, 0), score = 0, start_time = 0, running = True\<rparr>"

section \<open>Basic facts\<close>

lemma new_head_Cons:
  "snake s = h # t \<Longrightarrow> new_head s = Inr (fst h + fst (snake_dir s), snd h + snd (snake_dir s))"
  by (simp add: new_head_def)

lemma new_head_Inr_nonempty: "new_head s = Inr nh \<Longrightarrow> snake s \<noteq> []"
  by (auto simp: new_head_def)

lemma move_snake_eat:
  assumes "new_head s = Inr nh" and "nh = food s"
  shows "move_snake rx ry s =
    Inr (s\<lparr>snake := nh # snake s, score := score s + 1, food := random_food rx ry,
           running := running s \<and> \<not> collides nh (snake s)\<rparr>)"
  using assms by (simp add: move_snake_def Let_def)

lemma move_snake_no_eat:
  assumes "new_head s = Inr nh" and "nh \<noteq> food s"
  shows "move_snake rx ry s =
    Inr (s\<lparr>snake := nh # butlast (snake s),
           running := running s \<and> \<not> collides nh (snake s)\<rparr>)"
proof -
  from assms(1) have "snake s \<noteq> []" by (rule new_head_Inr_nonempty)
  with assms show ?thesis by (simp add: move_snake_def Let_def)
qed

lemma turned_start_eq:
  "turned_start rx ry =
     \<lparr>snake = [(100, 100), (90, 100), (80, 100)], snake_dir = (- 20, 0),
      food = (rx * 20, ry * 20), score = 0, start_time = 0, running = True\<rparr>"
  by (simp add: turned_start_def handle_events_def start_state_def init_game_def
      random_food_def GRID_SIZE_def)

lemma collides_member: "nh \<in> set sn \<Longrightarrow> collides nh sn"
  by (simp add: collides_def)

lemma collides_out_of_board: "\<not> in_board nh \<Longrightarrow> collides nh sn"
  by (auto simp: collides_def in_board_def)

lemma length_butlast_Cons: "xs \<noteq> [] \<Longrightarrow> length (nh # butlast xs) = length xs"
  by (cases xs) simp_all

lemma reach_right_wall:
  "run_loop (replicate 24 idle) (start_state 0 0 0) = Inr right_wall_state"
  by (simp add: eval_nat_numeral idle_def right_wall_state_def start_state_def init_game_def
      loop_body_def handle_events_def move_snake_def new_head_def collides_def
      random_food_def GRID_SIZE_def WIDTH_def HEIGHT_def Let_def)

lemma random_food_in_board: "food_draws rx ry \<Longrightarrow> in_board (random_food rx ry)"
  by (simp add: food_draws_def randint_returns_def in_board_def random_food_def
      WIDTH_def HEIGHT_def GRID_SIZE_def)

lemma random_food_aligned: "grid_aligned (random_food rx ry)"
  by (simp add: grid_aligned_def random_food_def)

lemma food_start_state: "food (start_state rx ry now) = random_food rx ry"
  by (simp add: start_state_def init_game_def)

lemma snake_start_state: "snake (start_state rx ry now) = [(100, 100), (90, 100), (80, 100)]"
  by (simp add: start_state_def init_game_def)

lemma snake_handle_event: "snake (handle_event s e) = snake s"
  by (cases e) simp_all

lemma snake_handle_events: "snake (handle_events evs s) = snake s"
  unfolding handle_events_def
  by (induction evs arbitrary: s) (simp_all add: snake_handle_event)

lemma move_snake_keeps_distinct:
  assumes "distinct (snake s)" and "move_snake rx ry s = Inr s'" and "running s'"
  shows "distinct (snake s')"
proof (cases "new_head s")
  case (Inl e)
  with assms(2) show ?thesis by (simp add: move_snake_def)
next
  case (Inr nh)
  show ?thesis
  proof (cases "nh = food s")
    case True
    from move_snake_eat [OF Inr True, of rx ry] assms(2,3)
    have "\<not> collides nh (snake s)" and "snake s' = nh # snake s"
      by auto
    with assms(1) show ?thesis by (simp add: collides_def)
  next
    case False
    from move_snake_no_eat [OF Inr False, of rx ry] assms(2,3)
    have c: "\<not> collides nh (snake s)" and sn: "snake s' = nh # butlast (snake s)"
      by auto
    from c have "nh \<notin> set (butlast (snake s))"
      by (auto simp: collides_def dest: in_set_butlastD)
    with assms(1) sn show ?thesis by (simp add: distinct_butlast)
  qed
qed

lemma loop_body_keeps_distinct:
  assumes "distinct (snake s)" and "loop_body i s = Inr s'" and "running s'"
  shows "distinct (snake s')"
proof -
  from assms(1) have "distinct (snake (handle_events (events i) s))"
    by (simp add: snake_handle_events)
  from this assms(2,3) show ?thesis
    unfolding loop_body_def by (rule move_snake_keeps_distinct)
qed

lemma run_loop_keeps_distinct:
  assumes "running s \<longrightarrow> distinct (snake s)" and "run_loop ins s = Inr r" and "running r"
  shows "distinct (snake r)"
  using assms
proof (induction ins arbitrary: s)
  case Nil
  then show ?case by simp
next
  case (Cons i ins)
  show ?case
  proof (cases "running s")
    case False
    with Cons.prems show ?thesis by simp
  next
    case True
    with Cons.prems(1) have d: "distinct (snake s)" by simp
    from True Cons.prems(2) obtain s' where b: "loop_body i s = Inr s'" and l: "run_loop ins s' = Inr r"
      by (auto split: sum.splits)
    from d b have "running s' \<longrightarrow> distinct (snake s')"
      by (auto intro: loop_body_keeps_distinct)
    from this l Cons.prems(3) show ?thesis by (rule Cons.IH)
  qed
qed

text \<open>The loop never raises: the snake is never empty.\<close>

lemma move_snake_total:
  assumes "snake s \<noteq> []"
  shows "\<exists>s'. move_snake rx ry s = Inr s' \<and> snake s' \<noteq> []"
proof -
  from assms obtain h t where "snake s = h # t" by (cases "snake s") auto
  then obtain nh where n: "new_head s = Inr nh" by (simp add: new_head_def)
  show ?thesis
  proof (cases "nh = food s")
    case True
    with n show ?thesis by (simp add: move_snake_eat)
  next
    case False
    with n show ?thesis by (simp add: move_snake_no_eat)
  qed
qed

lemma run_loop_total:
  "snake s \<noteq> [] \<Longrightarrow> \<exists>r. run_loop ins s = Inr r \<and> snake r \<noteq> []"
proof (induction ins arbitrary: s)
  case Nil
  then show ?case by simp
next
  case (Cons i ins)
  from Cons.prems have "snake (handle_events (events i) s) \<noteq> []"
    by (simp add: snake_handle_events)
  then obtain s' where b: "loop_body i s = Inr s'" and n: "snake s' \<noteq> []"
    unfolding loop_body_def using move_snake_total by blast
  from Cons.IH [OF n] b Cons.prems show ?case by simp
qed

text \<open>
  Every head that a tick inserts lies one grid unit from the head before it, whenever the
  direction is one of the four that the game assigns.
\<close>

lemma new_head_one_grid_unit:
  assumes "snake s = h # t" and "key_dir k = Some (snake_dir s)" and "new_head s = Inr nh"
  shows "cell_gaps (nh # snake s) ! 0 \<in> {(GRID_SIZE, 0), (- GRID_SIZE, 0), (0, GRID_SIZE), (0, - GRID_SIZE)}"
  using assms by (cases k) (auto simp: new_head_def)

section \<open>The tick\<close>

text \<open>
  C1, as amended. In a tick whose new head already occurs in the snake before the move,
  the session ends (\<open>running\<close> becomes false), and the snake is changed as in any other
  tick: the new head is inserted at the front, and the last cell is removed unless the new
  head is the food cell.
\<close>

theorem self_collision_ends_and_moves:
  assumes "new_head s = Inr nh" and "nh \<in> set (snake s)"
  shows "\<exists>s'. move_snake rx ry s = Inr s' \<and> \<not> running s' \<and>
    snake s' = (if nh = food s then nh # snake s else nh # butlast (snake s))"
proof (cases "nh = food s")
  case True
  with assms show ?thesis
    by (simp add: move_snake_eat collides_member)
next
  case False
  with assms show ?thesis
    by (simp add: move_snake_no_eat collides_member)
qed

theorem self_collision_ends_and_moves_witness:
  "new_head (turned_start 0 0) = Inr (80, 100) \<and>
   (80, 100) \<in> set (snake (turned_start 0 0)) \<and>
   (\<exists>s'. move_snake 0 0 (turned_start 0 0) = Inr s' \<and> \<not> running s' \<and>
      snake s' = [(80, 100), (100, 100), (90, 100)])"
proof -
  have h: "new_head (turned_start 0 0) = Inr (80, 100)"
    by (simp add: turned_start_eq new_head_def)
  have m: "(80, 100) \<in> set (snake (turned_start 0 0))"
    by (simp add: turned_start_eq)
  have f: "food (turned_start 0 0) = (0, 0)" and b: "snake (turned_start 0 0) = [(100, 100), (90, 100), (80, 100)]"
    by (simp_all add: turned_start_eq)
  from self_collision_ends_and_moves [OF h m, of 0 0] h m show ?thesis
    by (simp add: f b)
qed

text \<open>
  C1, as stated, fails. From the start, an up and a left key press in the first iteration
  turn the snake around; the new head \<open>(80, 100)\<close> is the last cell of the snake, the
  session ends, and the snake is \<open>[(80, 100), (100, 100), (90, 100)]\<close> afterwards, not
  the snake before the tick.
\<close>

theorem self_collision_mutates_counterexample:
  "new_head (turned_start 0 0) = Inr (80, 100) \<and>
   (80, 100) \<in> set (snake (turned_start 0 0)) \<and>
   move_snake 0 0 (turned_start 0 0) =
     Inr ((turned_start 0 0)\<lparr>snake := [(80, 100), (100, 100), (90, 100)], running := False\<rparr>) \<and>
   snake ((turned_start 0 0)\<lparr>snake := [(80, 100), (100, 100), (90, 100)], running := False\<rparr>)
     \<noteq> snake (turned_start 0 0)"
  by (simp add: turned_start_eq new_head_def move_snake_def collides_def Let_def)

text \<open>
  C3. In a tick whose new head is not the food cell, the snake is as long after the tick
  as before it.
\<close>

theorem no_food_keeps_length:
  assumes "new_head s = Inr nh" and "nh \<noteq> food s"
  shows "\<exists>s'. move_snake rx ry s = Inr s' \<and> length (snake s') = length (snake s)"
proof -
  from assms(1) have "snake s \<noteq> []" by (rule new_head_Inr_nonempty)
  then have "length (nh # butlast (snake s)) = length (snake s)"
    by (rule length_butlast_Cons)
  with assms show ?thesis by (simp add: move_snake_no_eat)
qed

theorem no_food_keeps_length_witness:
  "new_head (start_state 0 0 0) = Inr (120, 100) \<and>
   (120, 100) \<noteq> food (start_state 0 0 0) \<and>
   (\<exists>s'. move_snake 0 0 (start_state 0 0 0) = Inr s' \<and>
      length (snake s') = length (snake (start_state 0 0 0)))"
proof -
  have h: "new_head (start_state 0 0 0) = Inr (120, 100)"
    by (simp add: start_state_def init_game_def new_head_def GRID_SIZE_def)
  have f: "(120, 100) \<noteq> food (start_state 0 0 0)"
    by (simp add: start_state_def init_game_def random_food_def)
  from no_food_keeps_length [OF h f, of 0 0] h f show ?thesis
    by blast
qed

text \<open>
  C4. In a tick whose new head is the food cell, the snake is one cell longer after the
  tick than before it, and the score is one higher.
\<close>

theorem food_grows_and_scores:
  assumes "new_head s = Inr nh" and "nh = food s"
  shows "\<exists>s'. move_snake rx ry s = Inr s' \<and>
    length (snake s') = length (snake s) + 1 \<and> score s' = score s + 1"
  using assms by (simp add: move_snake_eat)

theorem food_grows_and_scores_witness:
  "new_head (start_state 6 5 0) = Inr (120, 100) \<and>
   (120, 100) = food (start_state 6 5 0) \<and>
   (\<exists>s'. move_snake 0 0 (start_state 6 5 0) = Inr s' \<and>
      length (snake s') = length (snake (start_state 6 5 0)) + 1 \<and>
      score s' = score (start_state 6 5 0) + 1)"
proof -
  have h: "new_head (start_state 6 5 0) = Inr (120, 100)"
    by (simp add: start_state_def init_game_def new_head_def GRID_SIZE_def)
  have f: "(120, 100) = food (start_state 6 5 0)"
    by (simp add: start_state_def init_game_def random_food_def GRID_SIZE_def)
  from food_grows_and_scores [OF h f, of 0 0] h f show ?thesis
    by blast
qed

text \<open>
  C5. In a tick whose new head has \<open>x < 0\<close>, \<open>x \<ge> 600\<close>, \<open>y < 0\<close> or \<open>y \<ge> 400\<close>, the
  session ends.
\<close>

theorem out_of_board_ends:
  assumes "new_head s = Inr nh"
    and "fst nh < 0 \<or> fst nh \<ge> 600 \<or> snd nh < 0 \<or> snd nh \<ge> 400"
  shows "\<exists>s'. move_snake rx ry s = Inr s' \<and> \<not> running s'"
proof -
  from assms(2) have c: "collides nh (snake s)"
    by (auto simp: collides_def WIDTH_def HEIGHT_def)
  show ?thesis
  proof (cases "nh = food s")
    case True
    with assms(1) c show ?thesis by (simp add: move_snake_eat)
  next
    case False
    with assms(1) c show ?thesis by (simp add: move_snake_no_eat)
  qed
qed

theorem out_of_board_ends_witness:
  "run_loop (replicate 24 idle) (start_state 0 0 0) = Inr right_wall_state \<and>
   new_head right_wall_state = Inr (600, 100) \<and>
   (fst (600 :: int, 100 :: int) < 0 \<or> fst (600 :: int, 100 :: int) \<ge> 600 \<or>
    snd (600 :: int, 100 :: int) < 0 \<or> snd (600 :: int, 100 :: int) \<ge> 400) \<and>
   (\<exists>s'. move_snake 0 0 right_wall_state = Inr s' \<and> \<not> running s')"
proof -
  have h: "new_head right_wall_state = Inr (600, 100)"
    by (simp add: right_wall_state_def new_head_def)
  have o: "fst (600 :: int, 100 :: int) < 0 \<or> fst (600 :: int, 100 :: int) \<ge> 600 \<or>
    snd (600 :: int, 100 :: int) < 0 \<or> snd (600 :: int, 100 :: int) \<ge> 400"
    by simp
  from out_of_board_ends [OF h o, of 0 0] h o reach_right_wall show ?thesis
    by blast
qed

text \<open>
  C9. After a tick that ends the session by a wall collision, the head of the snake in
  the resulting state is the out-of-board cell: the new head is inserted on the terminal
  tick too.
\<close>

theorem wall_collision_head_inserted:
  assumes "new_head s = Inr nh" and "\<not> in_board nh"
  shows "\<exists>s'. move_snake rx ry s = Inr s' \<and> \<not> running s' \<and>
    snake s' \<noteq> [] \<and> hd (snake s') = nh"
proof -
  from assms(2) have c: "collides nh (snake s)"
    by (rule collides_out_of_board)
  show ?thesis
  proof (cases "nh = food s")
    case True
    with assms(1) c show ?thesis by (simp add: move_snake_eat)
  next
    case False
    with assms(1) c show ?thesis by (simp add: move_snake_no_eat)
  qed
qed

theorem wall_collision_head_inserted_witness:
  "new_head right_wall_state = Inr (600, 100) \<and> \<not> in_board (600, 100) \<and>
   (\<exists>s'. move_snake 0 0 right_wall_state = Inr s' \<and> \<not> running s' \<and>
      snake s' \<noteq> [] \<and> hd (snake s') = (600, 100))"
proof -
  have h: "new_head right_wall_state = Inr (600, 100)"
    by (simp add: right_wall_state_def new_head_def)
  have o: "\<not> in_board (600, 100)"
    by (simp add: in_board_def WIDTH_def)
  from wall_collision_head_inserted [OF h o, of 0 0] h o show ?thesis
    by blast
qed

text \<open>
  C10. In a tick whose new head is the food cell and also occurs in the snake body, the
  session ends and, on that same tick, the score is incremented by 1, the food is placed
  anew from the two random draws, and the tail is not removed: the snake after the tick is
  the new head in front of the whole snake before it.
\<close>

theorem food_inside_snake_ends_and_scores:
  assumes "new_head s = Inr nh" and "nh = food s" and "nh \<in> set (snake s)"
  shows "\<exists>s'. move_snake rx ry s = Inr s' \<and> \<not> running s' \<and>
    score s' = score s + 1 \<and> food s' = random_food rx ry \<and> snake s' = nh # snake s"
  using assms by (simp add: move_snake_eat collides_member)

theorem food_inside_snake_ends_and_scores_witness:
  "new_head (turned_start 4 5) = Inr (80, 100) \<and>
   (80, 100) = food (turned_start 4 5) \<and>
   (80, 100) \<in> set (snake (turned_start 4 5)) \<and>
   (\<exists>s'. move_snake 7 3 (turned_start 4 5) = Inr s' \<and> \<not> running s' \<and>
      score s' = 1 \<and> food s' = (140, 60) \<and>
      snake s' = [(80, 100), (100, 100), (90, 100), (80, 100)])"
proof -
  have h: "new_head (turned_start 4 5) = Inr (80, 100)"
    by (simp add: turned_start_eq new_head_def)
  have f: "(80, 100) = food (turned_start 4 5)"
    by (simp add: turned_start_eq)
  have m: "(80, 100) \<in> set (snake (turned_start 4 5))"
    by (simp add: turned_start_eq)
  have sc: "score (turned_start 4 5) = 0"
    and b: "snake (turned_start 4 5) = [(100, 100), (90, 100), (80, 100)]"
    by (simp_all add: turned_start_eq)
  have r: "random_food 7 3 = (140, 60)"
    by (simp add: random_food_def GRID_SIZE_def)
  from food_inside_snake_ends_and_scores [OF h f m, of 7 3] h f m show ?thesis
    by (simp add: sc b r)
qed

section \<open>Direction changes\<close>

text \<open>
  C6. A key press that asks for the exact opposite of the current direction leaves the
  state as it is; a press of any other of the four arrow keys replaces the direction by
  the one asked for, and changes nothing else.
\<close>

theorem reversal_rejected_else_replaced:
  assumes "key_dir k = Some r"
  shows "handle_event s (KEYDOWN k) =
    (if r = opposite (snake_dir s) then s else s\<lparr>snake_dir := r\<rparr>)"
proof -
  have opp: "r = opposite (snake_dir s) \<longleftrightarrow> snake_dir s = (- fst r, - snd r)"
    by (cases r; cases "snake_dir s") (auto simp: opposite_def)
  show ?thesis
  proof (cases k)
    case K_UP
    with assms have "r = (0, - GRID_SIZE)" by simp
    with K_UP show ?thesis unfolding opp by (simp add: GRID_SIZE_def)
  next
    case K_DOWN
    with assms have "r = (0, GRID_SIZE)" by simp
    with K_DOWN show ?thesis unfolding opp by (simp add: GRID_SIZE_def)
  next
    case K_LEFT
    with assms have "r = (- GRID_SIZE, 0)" by simp
    with K_LEFT show ?thesis unfolding opp by (simp add: GRID_SIZE_def)
  next
    case K_RIGHT
    with assms have "r = (GRID_SIZE, 0)" by simp
    with K_RIGHT show ?thesis unfolding opp by (simp add: GRID_SIZE_def)
  next
    case K_OTHER
    with assms show ?thesis by simp
  qed
qed

theorem reversal_rejected_else_replaced_witness:
  "key_dir K_LEFT = Some (- 20, 0) \<and> key_dir K_UP = Some (0, - 20) \<and>
   snake_dir (start_state 0 0 0) = (20, 0) \<and>
   (- 20, 0) = opposite (snake_dir (start_state 0 0 0)) \<and>
   (0, - 20) \<noteq> opposite (snake_dir (start_state 0 0 0)) \<and>
   handle_event (start_state 0 0 0) (KEYDOWN K_LEFT) = start_state 0 0 0 \<and>
   handle_event (start_state 0 0 0) (KEYDOWN K_UP) = (start_state 0 0 0)\<lparr>snake_dir := (0, - 20)\<rparr>"
proof -
  have l: "key_dir K_LEFT = Some (- 20, 0)" and u: "key_dir K_UP = Some (0, - 20)"
    by (simp_all add: GRID_SIZE_def)
  have d: "snake_dir (start_state 0 0 0) = (20, 0)"
    by (simp add: start_state_def init_game_def GRID_SIZE_def)
  from reversal_rejected_else_replaced [OF l, of "start_state 0 0 0"]
    reversal_rejected_else_replaced [OF u, of "start_state 0 0 0"] l u d
  show ?thesis
    by (simp add: opposite_def)
qed

section \<open>Food placement\<close>

text \<open>
  C7. Whatever the two draws of the random-number source within their declared ranges
  \<open>[0, 29]\<close> and \<open>[0, 19]\<close>, the food cell placed at initialization lies within
  \<open>[0, 600) \<times> [0, 400)\<close> and is aligned to the grid, and so does the food cell placed
  by a tick in which the new head is the food cell.
\<close>

theorem placed_food_in_board_and_aligned:
  assumes "food_draws rx ry"
  shows "in_board (food (start_state rx ry now)) \<and>
    grid_aligned (food (start_state rx ry now)) \<and>
    (new_head s = Inr (food s) \<longrightarrow>
       (\<exists>s'. move_snake rx ry s = Inr s' \<and> in_board (food s') \<and> grid_aligned (food s')))"
proof -
  from assms have b: "in_board (random_food rx ry)"
    by (rule random_food_in_board)
  have a: "grid_aligned (random_food rx ry)"
    by (rule random_food_aligned)
  from a b show ?thesis
    by (simp add: food_start_state move_snake_eat)
qed

theorem placed_food_in_board_and_aligned_witness:
  "food_draws 29 19 \<and>
   food (start_state 29 19 0) = (580, 380) \<and>
   in_board (food (start_state 29 19 0)) \<and>
   grid_aligned (food (start_state 29 19 0)) \<and>
   new_head (start_state 6 5 0) = Inr (food (start_state 6 5 0)) \<and>
   (\<exists>s'. move_snake 29 19 (start_state 6 5 0) = Inr s' \<and>
      in_board (food s') \<and> grid_aligned (food s'))"
proof -
  have d: "food_draws 29 19"
    by (simp add: food_draws_def randint_returns_def WIDTH_def HEIGHT_def GRID_SIZE_def)
  have f: "food (start_state 29 19 0) = (580, 380)"
    by (simp add: food_start_state random_food_def GRID_SIZE_def)
  have h: "new_head (start_state 6 5 0) = Inr (food (start_state 6 5 0))"
    by (simp add: start_state_def init_game_def new_head_def random_food_def GRID_SIZE_def)
  from placed_food_in_board_and_aligned [OF d, of 0 "start_state 6 5 0"] d f h show ?thesis
    by blast
qed

section \<open>The snake while the session is alive\<close>

text \<open>
  C8. The snake at initialization has no duplicate cells; a tick that starts from a snake
  without duplicates and leaves the session alive ends with a snake without duplicates;
  and so every state that the loop reaches from the start, and in which the session is
  still alive, has a snake without duplicates.
\<close>

theorem alive_snake_distinct:
  "distinct (snake (start_state rx ry now)) \<and>
   (distinct (snake s) \<and> loop_body i s = Inr s' \<and> running s' \<longrightarrow> distinct (snake s')) \<and>
   (run_loop ins (start_state rx ry now) = Inr r \<and> running r \<longrightarrow> distinct (snake r))"
proof -
  have init: "distinct (snake (start_state rx ry now))"
    by (simp add: snake_start_state)
  have step: "distinct (snake s) \<and> loop_body i s = Inr s' \<and> running s' \<longrightarrow> distinct (snake s')"
    by (auto intro: loop_body_keeps_distinct)
  have reach: "run_loop ins (start_state rx ry now) = Inr r \<and> running r \<longrightarrow> distinct (snake r)"
    using init by (auto intro: run_loop_keeps_distinct)
  from init step reach show ?thesis by blast
qed

theorem alive_snake_distinct_witness:
  "distinct (snake (start_state 0 0 0)) \<and>
   distinct (snake right_wall_state) \<and>
   loop_body \<lparr>events = [KEYDOWN K_UP], rand_x = 0, rand_y = 0\<rparr> right_wall_state =
     Inr (right_wall_state\<lparr>snake := [(580, 80), (580, 100), (560, 100)], snake_dir := (0, - 20)\<rparr>) \<and>
   running (right_wall_state\<lparr>snake := [(580, 80), (580, 100), (560, 100)], snake_dir := (0, - 20)\<rparr>) \<and>
   distinct (snake (right_wall_state\<lparr>snake := [(580, 80), (580, 100), (560, 100)],
     snake_dir := (0, - 20)\<rparr>)) \<and>
   run_loop (replicate 24 idle) (start_state 0 0 0) = Inr right_wall_state \<and>
   running right_wall_state \<and>
   distinct (snake right_wall_state)"
proof -
  have b: "loop_body \<lparr>events = [KEYDOWN K_UP], rand_x = 0, rand_y = 0\<rparr> right_wall_state =
     Inr (right_wall_state\<lparr>snake := [(580, 80), (580, 100), (560, 100)], snake_dir := (0, - 20)\<rparr>)"
    by (simp add: right_wall_state_def loop_body_def handle_events_def move_snake_def
        new_head_def collides_def GRID_SIZE_def WIDTH_def HEIGHT_def Let_def)
  have a: "running (right_wall_state\<lparr>snake := [(580, 80), (580, 100), (560, 100)],
     snake_dir := (0, - 20)\<rparr>)"
    and a': "running right_wall_state"
    by (simp_all add: right_wall_state_def)
  have d: "distinct (snake right_wall_state)"
    by (simp add: right_wall_state_def)
  from alive_snake_distinct [of 0 0 0 right_wall_state
      "\<lparr>events = [KEYDOWN K_UP], rand_x = 0, rand_y = 0\<rparr>"
      "right_wall_state\<lparr>snake := [(580, 80), (580, 100), (560, 100)], snake_dir := (0, - 20)\<rparr>"
      "replicate 24 idle" right_wall_state]
    b a a' d reach_right_wall
  show ?thesis by blast
qed

section \<open>Initialization\<close>

text \<open>
  C2. \<^verbatim>\<open>init_game\<close> returns a snake of 3 cells at a fixed position, the direction
  \<open>(20, 0)\<close> pointing rightward and the score 0. The cells of the body are 10 units
  apart horizontally, which is half a grid unit and not the grid unit of 20 that the
  claim states; the second cell \<open>(90, 100)\<close> is not on the grid.
\<close>

theorem init_game_body_spacing:
  "init_game rx ry now =
     ([(100, 100), (90, 100), (80, 100)], (20, 0), (rx * 20, ry * 20), 0, now) \<and>
   length (fst (init_game rx ry now)) = 3 \<and>
   cell_gaps (fst (init_game rx ry now)) = [(10, 0), (10, 0)] \<and>
   (GRID_SIZE, 0) \<notin> set (cell_gaps (fst (init_game rx ry now))) \<and>
   \<not> list_all grid_aligned (fst (init_game rx ry now))"
  by (simp add: init_game_def random_food_def grid_aligned_def GRID_SIZE_def)

end
